theory Spec2Isabelle
  imports
    Main
    "HOL-Library.Char_ord"
    "HOL-Library.List_Lexorder"
    "HOL-Library.Multiset"
    "HOL-Library.Log_Nat"
begin

section \<open>Library functions used by the server\<close>

text \<open>
  Go strings are byte sequences; they are modelled as \<^typ>\<open>string\<close> (a list of
  8-bit characters).  The functions of this section are the parts of the Go standard
  library (\<^verbatim>\<open>strings\<close>, \<^verbatim>\<open>path/filepath\<close> on a Unix host) that
  \<^verbatim>\<open>main.go\<close> calls, written after the library's documented behaviour.
\<close>

subsection \<open>Package strings\<close>

definition HasPrefix :: "string \<Rightarrow> string \<Rightarrow> bool" where
  \<comment> \<open>\<^verbatim>\<open>len(s) >= len(prefix) && s[:len(prefix)] == prefix\<close>\<close>
  "HasPrefix s pre = (length pre \<le> length s \<and> take (length pre) s = pre)"

definition TrimPrefix :: "string \<Rightarrow> string \<Rightarrow> string" where
  "TrimPrefix s pre = (if HasPrefix s pre then drop (length pre) s else s)"

fun Contains :: "string \<Rightarrow> string \<Rightarrow> bool" where
  \<comment> \<open>some position of \<open>s\<close> starts an occurrence of \<open>sub\<close>\<close>
  "Contains [] sub = (sub = [])"
| "Contains (c # cs) sub = (HasPrefix (c # cs) sub \<or> Contains cs sub)"

fun Split :: "string \<Rightarrow> char \<Rightarrow> string list" where
  \<comment> \<open>\<^verbatim>\<open>strings.Split(s, sep)\<close> for a one-byte separator, the only way the
      program calls it; the result is never empty\<close>
  "Split [] sep = [[]]"
| "Split (c # cs) sep =
     (if c = sep then [] # Split cs sep
      else (case Split cs sep of
              [] \<Rightarrow> [[c]]
            | e # es \<Rightarrow> (c # e) # es))"

fun strings_Join :: "string list \<Rightarrow> string \<Rightarrow> string" where
  "strings_Join [] sep = []"
| "strings_Join [e] sep = e"
| "strings_Join (e # es) sep = e @ sep @ strings_Join es sep"

definition isASCII :: "string \<Rightarrow> bool" where
  \<comment> \<open>every byte is below \<^verbatim>\<open>utf8.RuneSelf\<close> (0x80)\<close>
  "isASCII s = list_all (\<lambda>c. of_char c < (128 :: nat)) s"

definition lowerByte :: "char \<Rightarrow> char" where
  \<comment> \<open>\<^verbatim>\<open>if 'A' <= c && c <= 'Z' { c += 'a' - 'A' }\<close>\<close>
  "lowerByte c =
     (if (65 :: nat) \<le> of_char c \<and> of_char c \<le> (90 :: nat)
      then char_of (of_char c + (32 :: nat)) else c)"

definition ToLower :: "(string \<Rightarrow> string) \<Rightarrow> string \<Rightarrow> string" where
  \<comment> \<open>\<^verbatim>\<open>strings.ToLower\<close>: strings of ASCII bytes are lowered byte by byte;
      any other string goes through the Unicode case tables, which are not modelled
      and enter as the parameter \<open>unicodeLower\<close>\<close>
  "ToLower unicodeLower s = (if isASCII s then map lowerByte s else unicodeLower s)"

subsection \<open>Package path/filepath (Unix)\<close>

definition Separator :: char where
  "Separator = CHR ''/''"

definition IsAbs :: "string \<Rightarrow> bool" where
  "IsAbs p = HasPrefix p ''/''"

definition clean_step :: "bool \<Rightarrow> string list \<Rightarrow> string \<Rightarrow> string list" where
  \<comment> \<open>one path element against the elements kept so far (the last kept element is the
      end of the output buffer): empty and \<^verbatim>\<open>.\<close> elements are dropped; a
      \<^verbatim>\<open>..\<close> element removes the last kept element when that is not itself
      \<^verbatim>\<open>..\<close>, is kept in an unrooted path when nothing can be removed, and is
      dropped at the root; any other element is kept\<close>
  "clean_step rooted st e =
     (if e = [] \<or> e = ''.'' then st
      else if e = ''..'' then
        (if st \<noteq> [] \<and> last st \<noteq> ''..'' then butlast st
         else if \<not> rooted then st @ [''..'']
         else st)
      else st @ [e])"

definition Clean :: "string \<Rightarrow> string" where
  \<comment> \<open>\<^verbatim>\<open>filepath.Clean\<close>: the shortest equivalent path by lexical processing;
      the empty path and an unrooted path that cancels out become \<^verbatim>\<open>.\<close>\<close>
  "Clean p =
     (if p = [] then ''.''
      else
        let rooted = (hd p = Separator);
            st = foldl (clean_step rooted) [] (Split p Separator)
        in if rooted then Separator # strings_Join st [Separator]
           else if st = [] then ''.''
           else strings_Join st [Separator])"

definition filepath_Join :: "string list \<Rightarrow> string" where
  \<comment> \<open>\<^verbatim>\<open>filepath.Join\<close>: leading empty elements are ignored, the rest is joined
      with the separator and cleaned; the result is empty when every element is empty\<close>
  "filepath_Join elems =
     (case dropWhile (\<lambda>e. e = []) elems of
        [] \<Rightarrow> []
      | e # es \<Rightarrow> Clean (strings_Join (e # es) [Separator]))"

definition Ext :: "string \<Rightarrow> string" where
  \<comment> \<open>\<^verbatim>\<open>filepath.Ext\<close>: the suffix beginning at the final dot of the final
      element of the path, empty when that element has no dot\<close>
  "Ext p =
     (let lastElem = rev (takeWhile (\<lambda>c. c \<noteq> Separator) (rev p))
      in if CHR ''.'' \<in> set lastElem
         then CHR ''.'' # rev (takeWhile (\<lambda>c. c \<noteq> CHR ''.'') (rev lastElem))
         else [])"

definition Base :: "string \<Rightarrow> string" where
  \<comment> \<open>\<^verbatim>\<open>filepath.Base\<close>: the last element of the path, after trailing separators
      are removed\<close>
  "Base p =
     (if p = [] then ''.''
      else
        let q = rev (dropWhile (\<lambda>c. c = Separator) (rev p));
            e = rev (takeWhile (\<lambda>c. c \<noteq> Separator) (rev q))
        in if e = [] then [Separator] else e)"


definition Abs :: "(string + string) \<Rightarrow> string \<Rightarrow> string + string" where
  \<comment> \<open>\<^verbatim>\<open>filepath.Abs\<close>: an absolute path is cleaned; a relative one is joined to
      the working directory, and the call fails (\<open>Inl\<close>) when \<^verbatim>\<open>os.Getwd\<close>
      fails.  The first argument is the result of \<^verbatim>\<open>os.Getwd\<close>.\<close>
  "Abs wd p =
     (if IsAbs p then Inr (Clean p)
      else (case wd of
              Inl e \<Rightarrow> Inl e
            | Inr d \<Rightarrow> Inr (filepath_Join [d, p])))"

subsection \<open>Package fmt\<close>

fun digits :: "nat \<Rightarrow> string" where
  "digits n =
     (if n < 10 then [char_of (48 + n)]
      else digits (n div 10) @ [char_of (48 + n mod 10)])"

declare digits.simps [simp del]

definition fmt_d :: "int \<Rightarrow> string" where
  \<comment> \<open>the verb \<^verbatim>\<open>%d\<close>\<close>
  "fmt_d i = (if i < 0 then CHR ''-'' # digits (nat (- i)) else digits (nat i))"

definition roundHalfEven :: "int \<Rightarrow> int \<Rightarrow> int" where
  \<comment> \<open>the integer nearest to \<open>num / den\<close> (\<open>den > 0\<close>), ties to the even one\<close>
  "roundHalfEven num den =
     (let q = num div den; r = num mod den
      in if 2 * r < den then q
         else if den < 2 * r then q + 1
         else if even q then q else q + 1)"

definition float64 :: "int \<Rightarrow> int" where
  \<comment> \<open>the value of the conversion \<^verbatim>\<open>float64(i)\<close> of a 64-bit integer: exact
      below \<open>2^53\<close> in magnitude, otherwise rounded to 53 significant bits, ties to
      even; the value is an integer in both cases\<close>
  "float64 i =
     (let a = \<bar>i\<bar> in
      if a < 2 ^ 53 then i
      else
        let e = nat (bitlen a) - 53;
            m = roundHalfEven a (2 ^ e)
        in sgn i * m * 2 ^ e)"

definition fmt_1f :: "int \<Rightarrow> int \<Rightarrow> string" where
  \<comment> \<open>the verb \<^verbatim>\<open>%.1f\<close> applied to the non-negative float \<open>num / den\<close>, where
      \<open>den\<close> is a power of two (the division is then exact in binary floating point):
      the decimal expansion correctly rounded to one digit after the point, ties to even\<close>
  "fmt_1f num den =
     (let t = roundHalfEven (10 * num) den
      in digits (nat (t div 10)) @ ''.'' @ digits (nat (t mod 10)))"

section \<open>The host: file system and process state\<close>

datatype os_error = OsError (not_exist: bool) (err_msg: string)
  \<comment> \<open>an \<^verbatim>\<open>error\<close> value of package \<^verbatim>\<open>os\<close>: whether
      \<^verbatim>\<open>os.IsNotExist\<close> holds of it, and its text under \<^verbatim>\<open>%v\<close>\<close>

record file_stat =
  st_isDir :: bool
  st_size :: int
  st_modTime :: int

record dir_entry =
  de_name :: string
  de_isDir :: bool
  de_info :: "os_error + file_stat"

record open_file =
  f_stat :: "os_error + file_stat"
  f_data :: string

record host =
  getwd :: "string + string"
  stat :: "string \<Rightarrow> os_error + file_stat"
  openFile :: "string \<Rightarrow> os_error + open_file"
  readDir :: "string \<Rightarrow> os_error + dir_entry list"
  unicodeLower :: "string \<Rightarrow> string"

section \<open>The server (main.go)\<close>

record FileInfo =
  Name :: string
  IsDir :: bool
  Size :: int
  ModTime :: int
  URL :: string

record DirectoryListing =
  Path :: string
  Files :: "FileInfo list"

text \<open>
  The listing page is kept as the values the template puts into its holes, before the
  template engine's HTML escaping: the path of the title and heading, the link of the
  parent-directory row when the template renders one, and one row per file.
\<close>

record listing_row =
  row_href :: string
  row_isDir :: bool
  row_name :: string
  row_type :: string
  row_size :: string
  row_modified :: int

record listing_page =
  page_path :: string
  page_parent :: "string option"
  page_rows :: "listing_row list"

datatype body = Text string | Bytes string | Html listing_page

record response =
  status :: nat
  headers :: "(string \<times> string) list"
  body :: body

datatype outcome = Responded response | Panicked
  \<comment> \<open>\<open>Panicked\<close>: the handler dereferences a nil value; no response is written\<close>

definition http_Error :: "string \<Rightarrow> nat \<Rightarrow> response" where
  \<comment> \<open>\<^verbatim>\<open>http.Error(w, msg, code)\<close>\<close>
  "http_Error msg code =
     \<lparr>status = code,
      headers = [(''Content-Type'', ''text/plain; charset=utf-8''),
                 (''X-Content-Type-Options'', ''nosniff'')],
      body = Text (msg @ [CHR 0x0A])\<rparr>"

definition getMimeType :: "(string \<Rightarrow> string) \<Rightarrow> string \<Rightarrow> string" where
  "getMimeType uni filename =
     (let ext = ToLower uni (Ext filename) in
      if ext = ''.html'' \<or> ext = ''.htm'' then ''text/html''
      else if ext = ''.css'' then ''text/css''
      else if ext = ''.js'' then ''application/javascript''
      else if ext = ''.json'' then ''application/json''
      else if ext = ''.png'' then ''image/png''
      else if ext = ''.jpg'' \<or> ext = ''.jpeg'' then ''image/jpeg''
      else if ext = ''.gif'' then ''image/gif''
      else if ext = ''.svg'' then ''image/svg+xml''
      else if ext = ''.pdf'' then ''application/pdf''
      else if ext = ''.txt'' then ''text/plain''
      else if ext = ''.md'' then ''text/markdown''
      else ''application/octet-stream'')"

definition formatBytes :: "int \<Rightarrow> string" where
  "formatBytes bytes =
     (if bytes < 1024 then fmt_d bytes @ '' B''
      else if bytes < 1024 * 1024 then fmt_1f (float64 bytes) 1024 @ '' KB''
      else fmt_1f (float64 bytes) (1024 * 1024) @ '' MB'')"

definition dirname :: "string \<Rightarrow> string" where
  "dirname path =
     (let parts = Split path CHR ''/'' in
      if length parts \<le> 1 then []
      else strings_Join (butlast parts) ''/'')"

definition parentHref :: "string \<Rightarrow> string" where
  \<comment> \<open>the \<^verbatim>\<open>href\<close> of the parent row:
      \<^verbatim>\<open>{{if eq (len (split .Path "/")) 1}}/{{else}}{{.Path | dirname}}/{{end}}\<close>\<close>
  "parentHref path =
     (if length (Split path CHR ''/'') = 1 then ''/'' else dirname path @ ''/'')"

definition renderRow :: "FileInfo \<Rightarrow> listing_row" where
  \<comment> \<open>the body of \<^verbatim>\<open>{{range .Files}}\<close>\<close>
  "renderRow f =
     \<lparr>row_href = URL f,
      row_isDir = IsDir f,
      row_name = Name f,
      row_type = (if IsDir f then ''Directory'' else ''File''),
      row_size = (if IsDir f then ''-'' else formatBytes (Size f)),
      row_modified = ModTime f\<rparr>"

definition generateDirectoryHTML :: "DirectoryListing \<Rightarrow> listing_page" where
  \<comment> \<open>the template is a constant that parses, and nothing it calls fails, so the two
      error returns of the source are never taken\<close>
  "generateDirectoryHTML listing =
     \<lparr>page_path = Path listing,
      page_parent = (if Path listing \<noteq> [] then Some (parentHref (Path listing)) else None),
      page_rows = map renderRow (Files listing)\<rparr>"

definition childURL :: "string \<Rightarrow> string \<Rightarrow> bool \<Rightarrow> string" where
  \<comment> \<open>main.go lines 168 to 178\<close>
  "childURL urlPath name isDir =
     (let u = (if urlPath \<noteq> [] then ''/'' @ urlPath @ ''/'' @ name else ''/'' @ name)
      in if isDir then u @ ''/'' else u)"

fun collectFiles :: "string \<Rightarrow> dir_entry list \<Rightarrow> FileInfo list" where
  \<comment> \<open>the loop of main.go lines 155 to 181; an entry whose \<^verbatim>\<open>Info()\<close> fails is
      skipped\<close>
  "collectFiles urlPath [] = []"
| "collectFiles urlPath (entry # entries) =
     (case de_info entry of
        Inl err \<Rightarrow> collectFiles urlPath entries
      | Inr info \<Rightarrow>
          \<lparr>Name = de_name entry, IsDir = de_isDir entry, Size = st_size info,
           ModTime = st_modTime info,
           URL = childURL urlPath (de_name entry) (de_isDir entry)\<rparr>
          # collectFiles urlPath entries)"

definition fileLess :: "FileInfo \<Rightarrow> FileInfo \<Rightarrow> bool" where
  \<comment> \<open>the comparison given to \<^verbatim>\<open>sort.Slice\<close>; Go compares strings byte by byte\<close>
  "fileLess a b = (if IsDir a \<noteq> IsDir b then IsDir a else Name a < Name b)"

fun insertLess :: "('a \<Rightarrow> 'a \<Rightarrow> bool) \<Rightarrow> 'a \<Rightarrow> 'a list \<Rightarrow> 'a list" where
  "insertLess lt x [] = [x]"
| "insertLess lt x (y # ys) =
     (if lt y x then y # insertLess lt x ys else x # y # ys)"

definition sort_Slice :: "('a \<Rightarrow> 'a \<Rightarrow> bool) \<Rightarrow> 'a list \<Rightarrow> 'a list" where
  \<comment> \<open>\<^verbatim>\<open>sort.Slice\<close> is a deterministic comparison sort; it is modelled by
      insertion sort under the same comparison.  The library's sort is not stable, so
      the two may order elements differently that the comparison does not separate;
      the entries of one directory have distinct names and are all separated.\<close>
  "sort_Slice lt xs = foldr (insertLess lt) xs []"

definition serveDirectory :: "host \<Rightarrow> string \<Rightarrow> string \<Rightarrow> outcome" where
  "serveDirectory h dirPath urlPath =
     (case readDir h dirPath of
        Inl err \<Rightarrow>
          Responded (http_Error (''Error reading directory: '' @ err_msg err) 500)
      | Inr entries \<Rightarrow>
          let files = sort_Slice fileLess (collectFiles urlPath entries);
              listing = \<lparr>Path = urlPath, Files = files\<rparr>
          in Responded
               \<lparr>status = 200,
                headers = [(''Content-Type'', ''text/html; charset=utf-8'')],
                body = Html (generateDirectoryHTML listing)\<rparr>)"

definition serveFile :: "host \<Rightarrow> string \<Rightarrow> outcome" where
  "serveFile h filePath =
     (case openFile h filePath of
        Inl err \<Rightarrow> Responded (http_Error (''Error reading file: '' @ err_msg err) 500)
      | Inr file \<Rightarrow>
          (case f_stat file of
             Inl err \<Rightarrow> Responded (http_Error (''Error reading file: '' @ err_msg err) 500)
           | Inr info \<Rightarrow>
               let filename = Base filePath in
               Responded
                 \<lparr>status = 200,
                  headers =
                    [(''Content-Type'', getMimeType (unicodeLower h) filename),
                     (''Content-Length'', fmt_d (st_size info)),
                     (''Content-Disposition'',
                        ''attachment; filename='' @ [CHR 0x22] @ filename @ [CHR 0x22])],
                  body = Bytes (f_data file)\<rparr>))"

definition withinServeDir :: "string \<Rightarrow> string \<Rightarrow> bool" where
  \<comment> \<open>the containment test of main.go line 97\<close>
  "withinServeDir absPath serveAbsPath = HasPrefix absPath serveAbsPath"

definition serveResolved :: "host \<Rightarrow> string \<Rightarrow> string \<Rightarrow> string \<Rightarrow> outcome" where
  \<comment> \<open>main.go lines 97 to 113: the handler from the containment test on, given the
      absolute candidate path, the absolute serve path and the request path\<close>
  "serveResolved h absPath serveAbsPath path =
     (if \<not> withinServeDir absPath serveAbsPath
      then Responded (http_Error ''Forbidden: Path outside serve directory'' 403)
      else
        (case stat h absPath of
           Inl err \<Rightarrow>
             if not_exist err then Responded (http_Error ''Not Found'' 404)
             else Panicked
         | Inr info \<Rightarrow>
             if st_isDir info then serveDirectory h absPath path
             else serveFile h absPath))"

definition ServeHTTP :: "host \<Rightarrow> string \<Rightarrow> string \<Rightarrow> outcome" where
  \<comment> \<open>\<open>ServeHTTP h servePath urlPath\<close>: the handler of a server with field
      \<^verbatim>\<open>servePath\<close> on a request with \<^verbatim>\<open>r.URL.Path = urlPath\<close>.  After a
      failed \<^verbatim>\<open>os.Stat\<close> that is not a non-existence the source calls
      \<^verbatim>\<open>info.IsDir()\<close> on a nil \<^verbatim>\<open>info\<close>.\<close>
  "ServeHTTP h servePath urlPath =
     (let path = TrimPrefix urlPath ''/'' in
      if Contains path ''..'' \<or> HasPrefix path ''/''
      then Responded (http_Error ''Forbidden: Directory traversal not allowed'' 403)
      else
        let fullPath = filepath_Join [servePath, path] in
        (case Abs (getwd h) fullPath of
           Inl err \<Rightarrow> Responded (http_Error ''Not Found'' 404)
         | Inr absPath \<Rightarrow>
             let serveAbsPath = (case Abs (getwd h) servePath of Inl err \<Rightarrow> [] | Inr s \<Rightarrow> s)
             in serveResolved h absPath serveAbsPath path))"


definition main_servePath :: "host \<Rightarrow> string \<Rightarrow> string option" where
  \<comment> \<open>main.go lines 38 to 61: the serve path \<^verbatim>\<open>main\<close> gives the handler for the
      flag value \<open>folder\<close>, \<open>None\<close> when \<^verbatim>\<open>main\<close> exits instead\<close>
  "main_servePath h folder =
     (if folder = [] then None
      else
        (case Abs (getwd h) folder of
           Inl err \<Rightarrow> None
         | Inr servePath \<Rightarrow>
             (case stat h servePath of
                Inl err \<Rightarrow> if not_exist err then None else Some servePath
              | Inr info \<Rightarrow> Some servePath)))"

definition listedRows :: "outcome \<Rightarrow> listing_row list" where
  \<comment> \<open>the rows of the listing an outcome carries; none when it carries no listing\<close>
  "listedRows out =
     (case out of
        Panicked \<Rightarrow> []
      | Responded r \<Rightarrow> (case body r of Html pg \<Rightarrow> page_rows pg | Text t \<Rightarrow> [] | Bytes b \<Rightarrow> []))"

definition parentLink :: "outcome \<Rightarrow> string option" where
  \<comment> \<open>the link of the parent-directory row of the listing an outcome carries\<close>
  "parentLink out =
     (case out of
        Panicked \<Rightarrow> None
      | Responded r \<Rightarrow> (case body r of Html pg \<Rightarrow> page_parent pg | Text t \<Rightarrow> None | Bytes b \<Rightarrow> None))"

section \<open>Notions of the specification\<close>


definition mime_table :: "(string \<times> string) list" where
  \<comment> \<open>the MIME table of the specification\<close>
  "mime_table =
     [(''.html'', ''text/html''), (''.htm'', ''text/html''), (''.css'', ''text/css''),
      (''.js'', ''application/javascript''), (''.json'', ''application/json''),
      (''.png'', ''image/png''), (''.jpg'', ''image/jpeg''), (''.jpeg'', ''image/jpeg''),
      (''.gif'', ''image/gif''), (''.svg'', ''image/svg+xml''),
      (''.pdf'', ''application/pdf''), (''.txt'', ''text/plain''),
      (''.md'', ''text/markdown'')]"

definition mime_of_ext :: "string \<Rightarrow> string" where
  \<comment> \<open>lookup in the table, anything else being the generic binary type\<close>
  "mime_of_ext ext =
     (case map_of mime_table ext of
        Some t \<Rightarrow> t
      | None \<Rightarrow> ''application/octet-stream'')"

definition isDigit :: "char \<Rightarrow> bool" where
  "isDigit c = ((48 :: nat) \<le> of_char c \<and> of_char c \<le> (57 :: nat))"

definition decimalValue :: "string \<Rightarrow> nat" where
  "decimalValue s = foldl (\<lambda>a c. 10 * a + (of_char c - 48)) 0 s"

definition showsNat :: "string \<Rightarrow> nat \<Rightarrow> bool" where
  \<comment> \<open>\<open>s\<close> is a decimal numeral of the number \<open>k\<close>\<close>
  "showsNat s k = (s \<noteq> [] \<and> list_all isDigit s \<and> decimalValue s = k)"


definition realElem :: "string \<Rightarrow> bool" where
  \<comment> \<open>a path element that \<open>Clean\<close> keeps as it is\<close>
  "realElem e = (e \<noteq> [] \<and> e \<noteq> ''.'' \<and> e \<noteq> ''..'' \<and> Separator \<notin> set e)"

definition cleanStack :: "string \<Rightarrow> string list" where
  \<comment> \<open>the elements \<open>Clean\<close> keeps of a rooted path, given without its leading separator\<close>
  "cleanStack q = foldl (clean_step True) [] (Split q Separator)"

section \<open>A concrete host\<close>

text \<open>
  A small file system under \<^verbatim>\<open>/srv/files\<close>: the files \<^verbatim>\<open>Zed.md\<close> and
  \<^verbatim>\<open>a.txt\<close>, the directory \<^verbatim>\<open>docs\<close> with the subdirectory \<^verbatim>\<open>img\<close>
  and the file \<^verbatim>\<open>readme.md\<close>, and an entry \<^verbatim>\<open>gone.tmp\<close> that is removed
  between the directory read and the read of its metadata.  A path below the regular
  file \<^verbatim>\<open>a.txt\<close> fails \<^verbatim>\<open>stat\<close> with \<^verbatim>\<open>ENOTDIR\<close>, which is not a
  non-existence error.
\<close>

definition demo_dir :: file_stat where
  "demo_dir = \<lparr>st_isDir = True, st_size = 4096, st_modTime = 0\<rparr>"

definition demo_file :: "int \<Rightarrow> file_stat" where
  "demo_file n = \<lparr>st_isDir = False, st_size = n, st_modTime = 0\<rparr>"

definition demo_notExist :: "string \<Rightarrow> string \<Rightarrow> os_error" where
  "demo_notExist opn p = OsError True (opn @ '' '' @ p @ '': no such file or directory'')"

definition demo_root_entries :: "dir_entry list" where
  "demo_root_entries =
     [\<lparr>de_name = ''Zed.md'', de_isDir = False, de_info = Inr (demo_file 5)\<rparr>,
      \<lparr>de_name = ''a.txt'', de_isDir = False, de_info = Inr (demo_file 1280)\<rparr>,
      \<lparr>de_name = ''docs'', de_isDir = True, de_info = Inr demo_dir\<rparr>,
      \<lparr>de_name = ''gone.tmp'', de_isDir = False,
       de_info = Inl (demo_notExist ''lstat'' ''/srv/files/gone.tmp'')\<rparr>]"

definition demo_docs_entries :: "dir_entry list" where
  "demo_docs_entries =
     [\<lparr>de_name = ''img'', de_isDir = True, de_info = Inr demo_dir\<rparr>,
      \<lparr>de_name = ''readme.md'', de_isDir = False, de_info = Inr (demo_file 2048)\<rparr>]"

definition demo_stat :: "string \<Rightarrow> os_error + file_stat" where
  "demo_stat p =
     (if p = ''/srv/files'' \<or> p = ''/srv/files/docs'' \<or> p = ''/srv/files/docs/img''
      then Inr demo_dir
      else if p = ''/srv/files/Zed.md'' then Inr (demo_file 5)
      else if p = ''/srv/files/a.txt'' then Inr (demo_file 1280)
      else if p = ''/srv/files/docs/readme.md'' then Inr (demo_file 2048)
      else if p = ''/srv/files/a.txt/x''
      then Inl (OsError False ''stat /srv/files/a.txt/x: not a directory'')
      else Inl (demo_notExist ''stat'' p))"

definition demo_readDir :: "string \<Rightarrow> os_error + dir_entry list" where
  "demo_readDir p =
     (if p = ''/srv/files'' then Inr demo_root_entries
      else if p = ''/srv/files/docs'' then Inr demo_docs_entries
      else if p = ''/srv/files/docs/img'' then Inr []
      else Inl (demo_notExist ''open'' p))"

definition demo_open :: "string \<Rightarrow> os_error + open_file" where
  "demo_open p =
     (if p = ''/srv/files/Zed.md''
      then Inr \<lparr>f_stat = Inr (demo_file 5), f_data = ''hello''\<rparr>
      else if p = ''/srv/files/a.txt''
      then Inr \<lparr>f_stat = Inr (demo_file 1280), f_data = replicate 1280 CHR ''a''\<rparr>
      else Inl (demo_notExist ''open'' p))"

definition demo_host :: host where
  "demo_host =
     \<lparr>getwd = Inr ''/'',
      stat = demo_stat,
      openFile = demo_open,
      readDir = demo_readDir,
      unicodeLower = (\<lambda>s. s)\<rparr>"

section \<open>Facts about the library functions\<close>


lemma Clean_examples:
  "Clean ''abc//def//ghi'' = ''abc/def/ghi''"
  "Clean ''/../abc'' = ''/abc''"
  "Clean ''abc/def/../../..'' = ''..''"
  "Clean ''abc/./../def'' = ''def''"
  "Clean ''../../abc'' = ''../../abc''"
  "Clean ''/abc/'' = ''/abc''"
  "Clean ''///'' = ''/''"
  "Clean ''abc/..'' = ''.''"
  "Clean [] = ''.''"
  by (simp_all add: Clean_def clean_step_def Separator_def)

lemma library_examples:
  "filepath_Join [''a'', ''b/c''] = ''a/b/c''"
  "filepath_Join [''a'', []] = ''a''"
  "filepath_Join [[], ''b''] = ''b''"
  "filepath_Join [''a/b'', ''../../../xyz''] = ''../xyz''"
  "filepath_Join [[], []] = []"
  "Ext ''/a/b/c/bar.css'' = ''.css''"
  "Ext ''a.b/c'' = []"
  "Ext ''archive.tar.gz'' = ''.gz''"
  "Base ''/foo/bar/baz.js'' = ''baz.js''"
  "Base ''/foo/bar/baz/'' = ''baz''"
  "Base [] = ''.''"
  "Base ''////'' = ''/''"
  "Split ''a/b//c'' CHR ''/'' = [''a'', ''b'', [], ''c'']"
  "Split [] CHR ''/'' = [[]]"
  "strings_Join [''a'', ''b'', ''c''] ''/'' = ''a/b/c''"
  "Contains ''seafood'' ''foo''"
  "\<not> Contains ''seafood'' ''bar''"
  "TrimPrefix ''/a/b'' ''/'' = ''a/b''"
  "TrimPrefix ''a/b'' ''/'' = ''a/b''"
  by (simp_all add: filepath_Join_def Clean_def clean_step_def Separator_def Ext_def Base_def
      TrimPrefix_def HasPrefix_def)

lemma HasPrefix_Nil [simp]: "HasPrefix s []"
  by (simp add: HasPrefix_def)

lemma HasPrefix_Cons [simp]: "HasPrefix (c # cs) (d # ds) = (c = d \<and> HasPrefix cs ds)"
  by (auto simp add: HasPrefix_def)

lemma HasPrefix_Nil_left [simp]: "HasPrefix [] p = (p = [])"
  by (auto simp add: HasPrefix_def)

lemma HasPrefix_append [simp]: "HasPrefix (p @ r) p"
  by (simp add: HasPrefix_def)

lemma Contains_TrimPrefix_dotdot:
  "Contains urlPath ''..'' \<Longrightarrow> Contains (TrimPrefix urlPath ''/'') ''..''"
  by (cases urlPath) (auto simp add: TrimPrefix_def)

lemma Split_not_Nil [simp]: "Split s sep \<noteq> []"
  by (induction s) (auto split: list.splits)

lemma Split_append: "Split (a @ sep # b) sep = Split a sep @ Split b sep"
  by (induction a) (auto split: list.splits)

lemma Split_no_sep: "e \<in> set (Split s sep) \<Longrightarrow> sep \<notin> set e"
  by (induction s arbitrary: e) (auto split: list.splits if_splits)

lemma Split_hd_prefix: "Split s sep = e # es \<Longrightarrow> HasPrefix s e"
  by (induction s arbitrary: e es) (auto split: list.splits if_splits)

lemma Split_single: "(length (Split p sep) = Suc 0) = (sep \<notin> set p)"
  by (induction p) (auto split: list.splits)

lemma Split_dotdot_Contains: "''..'' \<in> set (Split p sep) \<Longrightarrow> Contains p ''..''"
proof (induction p)
  case Nil
  then show ?case by simp
next
  case (Cons c cs)
  show ?case
  proof (cases "c = sep")
    case True
    with Cons show ?thesis by auto
  next
    case False
    obtain e es where sp: "Split cs sep = e # es"
      by (cases "Split cs sep") auto
    from Cons.prems False sp have "c # e = ''..'' \<or> ''..'' \<in> set es" by auto
    then show ?thesis
    proof
      assume "c # e = ''..''"
      then have "c = CHR ''.''" "e = ''.''" by auto
      with Split_hd_prefix [OF sp] have "HasPrefix (c # cs) ''..''" by simp
      then show ?thesis by simp
    next
      assume "''..'' \<in> set es"
      with sp Cons.IH show ?thesis by simp
    qed
  qed
qed

lemma strings_Join_Cons:
  "es \<noteq> [] \<Longrightarrow> strings_Join (e # es) sep = e @ sep @ strings_Join es sep"
  by (cases es) auto

lemma strings_Join_append:
  "strings_Join (a @ b) sep =
     strings_Join a sep @ (if a = [] \<or> b = [] then [] else sep) @ strings_Join b sep"
  by (induction a sep rule: strings_Join.induct) (auto simp add: strings_Join_Cons)

lemma Split_Join:
  "es \<noteq> [] \<Longrightarrow> \<forall>e \<in> set es. sep \<notin> set e \<Longrightarrow> Split (strings_Join es [sep]) sep = es"
proof (induction es "[sep]" rule: strings_Join.induct)
  case 1
  then show ?case by simp
next
  case (2 e)
  then show ?case by (induction e) (auto split: list.splits)
next
  case (3 e v va)
  then have "Split (strings_Join (v # va) [sep]) sep = v # va" by simp
  moreover have "Split e sep = [e]" using 3(3) by (induction e) (auto split: list.splits)
  ultimately show ?case using Split_append [of e sep "strings_Join (v # va) [sep]"] by simp
qed

subsection \<open>Clean on rooted paths\<close>

lemma foldl_clean_step_no_dotdot:
  "''..'' \<notin> set es \<Longrightarrow>
   foldl (clean_step r) st es = st @ filter (\<lambda>e. e \<noteq> [] \<and> e \<noteq> ''.'') es"
  by (induction es arbitrary: st) (auto simp add: clean_step_def)

lemma realElem_butlast: "list_all realElem st \<Longrightarrow> list_all realElem (butlast st)"
  by (induction st) auto

lemma clean_step_real:
  "list_all realElem st \<Longrightarrow> Separator \<notin> set e \<Longrightarrow> list_all realElem (clean_step True st e)"
  by (auto simp add: clean_step_def realElem_butlast realElem_def)

lemma foldl_clean_step_real:
  "list_all realElem st \<Longrightarrow> \<forall>e \<in> set es. Separator \<notin> set e \<Longrightarrow>
   list_all realElem (foldl (clean_step True) st es)"
  by (induction es arbitrary: st) (auto simp add: clean_step_real)

lemma foldl_clean_step_id:
  "list_all realElem es \<Longrightarrow> foldl (clean_step r) st es = st @ es"
  by (induction es arbitrary: st) (auto simp add: clean_step_def realElem_def)

lemma Clean_rooted:
  "Clean (Separator # q) =
     Separator # strings_Join (foldl (clean_step True) [] (Split q Separator)) [Separator]"
  by (simp add: Clean_def clean_step_def)

lemma cleanStack_real: "list_all realElem (cleanStack q)"
  unfolding cleanStack_def
  by (rule foldl_clean_step_real) (auto dest: Split_no_sep)

lemma Clean_rooted_real:
  assumes "list_all realElem es"
  shows "Clean (Separator # strings_Join es [Separator]) = Separator # strings_Join es [Separator]"
proof (cases "es = []")
  case True
  then show ?thesis by (simp add: Clean_def clean_step_def)
next
  case False
  have ns: "\<forall>e \<in> set es. Separator \<notin> set e"
    using assms by (auto simp add: list_all_iff realElem_def)
  have "Split (strings_Join es [Separator]) Separator = es"
    using False ns by (rule Split_Join)
  then show ?thesis
    using assms by (simp add: Clean_rooted foldl_clean_step_id)
qed

lemma Clean_idem_rooted: "Clean (Clean (Separator # q)) = Clean (Separator # q)"
  using Clean_rooted_real [OF cleanStack_real [of q]]
  by (simp add: Clean_rooted cleanStack_def)

lemma Clean_join_shape:
  assumes "\<not> Contains p ''..''"
  shows "Clean ((Separator # q) @ [Separator] @ p) =
           Separator # strings_Join
             (cleanStack q @ filter (\<lambda>e. e \<noteq> [] \<and> e \<noteq> ''.'') (Split p Separator))
             [Separator]"
proof -
  have nd: "''..'' \<notin> set (Split p Separator)"
    using assms Split_dotdot_Contains by blast
  have "Split (q @ Separator # p) Separator = Split q Separator @ Split p Separator"
    by (rule Split_append)
  then show ?thesis
    using Clean_rooted [of "q @ Separator # p"] foldl_clean_step_no_dotdot [OF nd]
    by (simp add: cleanStack_def)
qed

lemma IsAbs_Cons: "IsAbs s \<Longrightarrow> \<exists>q. s = Separator # q"
  by (cases s) (auto simp add: IsAbs_def Separator_def)

lemma filter_real:
  assumes "''..'' \<notin> set (Split p Separator)"
  shows "list_all realElem (filter (\<lambda>e. e \<noteq> [] \<and> e \<noteq> ''.'') (Split p Separator))"
  using assms Split_no_sep [of _ p Separator]
  by (auto simp add: list_all_iff realElem_def)

text \<open>
  The serve path \<^verbatim>\<open>main\<close> configures is absolute, the working directory being
  an absolute path whenever \<^verbatim>\<open>os.Getwd\<close> succeeds.
\<close>

lemma IsAbs_Clean_rooted: "IsAbs (Clean (Separator # q))"
  unfolding Clean_rooted by (simp add: IsAbs_def Separator_def)

lemma main_servePath_IsAbs:
  assumes m: "main_servePath h folder = Some servePath"
    and wd: "\<forall>d. getwd h = Inr d \<longrightarrow> IsAbs d"
  shows "IsAbs servePath"
proof -
  from m have a: "Abs (getwd h) folder = Inr servePath"
    by (auto simp add: main_servePath_def split: if_splits sum.splits)
  show ?thesis
  proof (cases "IsAbs folder")
    case True
    then obtain q where q: "folder = Separator # q" using IsAbs_Cons by blast
    from a True have "servePath = Clean folder" by (simp add: Abs_def)
    then show ?thesis unfolding q by (simp only: IsAbs_Clean_rooted)
  next
    case False
    with a obtain d where d: "getwd h = Inr d" and j: "servePath = filepath_Join [d, folder]"
      by (auto simp add: Abs_def split: sum.splits)
    from wd d obtain q where q: "d = Separator # q" using IsAbs_Cons by blast
    have "filepath_Join [d, folder] = Clean (Separator # (q @ Separator # folder))"
      by (simp add: filepath_Join_def q)
    then show ?thesis
      unfolding j by (simp only: IsAbs_Clean_rooted)
  qed
qed

text \<open>
  With an absolute serve path and a request path free of \<^verbatim>\<open>..\<close>, both absolute
  paths the handler computes are lists of kept elements, and the candidate's list
  extends the serve path's.
\<close>

lemma resolve_shape:
  assumes ab: "IsAbs servePath" and nd: "\<not> Contains path ''..''"
  shows "\<exists>st xs. Abs wd servePath = Inr (Separator # strings_Join st [Separator]) \<and>
                 Abs wd (filepath_Join [servePath, path]) =
                   Inr (Separator # strings_Join (st @ xs) [Separator])"
proof -
  obtain q where s: "servePath = Separator # q"
    using IsAbs_Cons [OF ab] by blast
  define st where "st = cleanStack q"
  define xs where "xs = filter (\<lambda>e. e \<noteq> [] \<and> e \<noteq> ''.'') (Split path Separator)"
  have nds: "''..'' \<notin> set (Split path Separator)"
    using nd Split_dotdot_Contains by blast
  have real: "list_all realElem (st @ xs)"
    using cleanStack_real [of q] filter_real [OF nds] by (simp add: st_def xs_def)
  have j: "filepath_Join [servePath, path] = Separator # strings_Join (st @ xs) [Separator]"
    using Clean_join_shape [OF nd, of q] by (simp add: filepath_Join_def s st_def xs_def)
  have a1: "Abs wd servePath = Inr (Separator # strings_Join st [Separator])"
    using ab by (simp add: Abs_def s Clean_rooted st_def cleanStack_def)
  have a2: "Abs wd (filepath_Join [servePath, path]) =
              Inr (Separator # strings_Join (st @ xs) [Separator])"
    unfolding j using Clean_rooted_real [OF real]
    by (simp add: Abs_def IsAbs_def Separator_def)
  from a1 a2 show ?thesis by blast
qed

lemma shape_within:
  "withinServeDir (Separator # strings_Join (st @ xs) [Separator])
                  (Separator # strings_Join st [Separator])"
  by (simp add: withinServeDir_def strings_Join_append)


subsection \<open>Sorting\<close>

lemma set_insertLess [simp]: "set (insertLess lt x xs) = insert x (set xs)"
  by (induction xs) auto

lemma set_sort_Slice [simp]: "set (sort_Slice lt xs) = set xs"
  by (induction xs) (auto simp add: sort_Slice_def)

lemma mset_insertLess [simp]: "mset (insertLess lt x xs) = add_mset x (mset xs)"
  by (induction xs) auto








subsection \<open>Formatting\<close>

lemma of_char_digit: "d < 10 \<Longrightarrow> of_char (char_of (48 + d)) = (48 + d :: nat)"
  by simp

lemma digits_showsNat: "showsNat (digits n) n"
proof (induction n rule: digits.induct)
  case (1 n)
  show ?case
  proof (cases "n < 10")
    case True
    then show ?thesis
      by (subst digits.simps) (simp add: showsNat_def isDigit_def decimalValue_def)
  next
    case False
    with 1 have ih: "showsNat (digits (n div 10)) (n div 10)" by simp
    have d: "digits n = digits (n div 10) @ [char_of (48 + n mod 10)]"
      using False by (subst digits.simps) simp
    have m: "n mod 10 < 10" by simp
    from ih show ?thesis
      unfolding d showsNat_def decimalValue_def isDigit_def
      using of_char_digit [OF m] by simp
  qed
qed

lemma roundHalfEven_near:
  assumes "0 < den"
  shows "2 * \<bar>den * roundHalfEven num den - num\<bar> \<le> den"
proof -
  define q where "q = num div den"
  define r where "r = num mod den"
  have n: "num = den * q + r" by (simp add: q_def r_def)
  have r0: "0 \<le> r" "r < den" using assms by (simp_all add: r_def)
  have alg: "den * (q + 1) = den * q + den" by (simp add: algebra_simps)
  show ?thesis
    unfolding roundHalfEven_def Let_def q_def [symmetric] r_def [symmetric]
    using r0 n alg by auto
qed

lemma roundHalfEven_nonneg: "0 < den \<Longrightarrow> 0 \<le> num \<Longrightarrow> 0 \<le> roundHalfEven num den"
  by (auto simp add: roundHalfEven_def Let_def pos_imp_zdiv_nonneg_iff intro: add_nonneg_nonneg)

lemma float64_exact: "\<bar>i\<bar> < 2 ^ 53 \<Longrightarrow> float64 i = i"
  by (simp add: float64_def)

lemma float64_near:
  assumes "2 ^ 53 \<le> n" "n < 2 ^ 63"
  shows "\<bar>float64 n - n\<bar> \<le> 512"
proof -
  have "(0::int) < 2 ^ 53" by simp
  with assms(1) have pos: "0 < n" by linarith
  define e where "e = nat (bitlen n) - 53"
  have b: "2 ^ nat (bitlen n - 1) \<le> n" using bitlen_bounds [OF pos] by simp
  have lt: "(2::int) ^ nat (bitlen n - 1) < 2 ^ 63" using b assms(2) by linarith
  have "nat (bitlen n - 1) < 63"
  proof (rule ccontr)
    assume "\<not> nat (bitlen n - 1) < 63"
    then have "63 \<le> nat (bitlen n - 1)" by simp
    then have "(2::int) ^ 63 \<le> 2 ^ nat (bitlen n - 1)" by (intro power_increasing) auto
    with lt show False by linarith
  qed
  then have e10: "e \<le> 10" by (simp add: e_def)
  have p: "(0::int) < 2 ^ e" by simp
  have pe: "(2::int) ^ e \<le> 2 ^ 10" using e10 by (intro power_increasing) auto
  have f: "float64 n = roundHalfEven n (2 ^ e) * 2 ^ e"
    using assms(1) pos by (simp add: float64_def Let_def e_def)
  have "2 * \<bar>2 ^ e * roundHalfEven n (2 ^ e) - n\<bar> \<le> 2 ^ e"
    by (rule roundHalfEven_near [OF p])
  with pe show ?thesis unfolding f by (simp add: mult.commute)
qed

lemma fmt_1f_shows:
  assumes "0 < den" "0 \<le> num"
  shows "\<exists>ip fp t. fmt_1f num den = ip @ ''.'' @ fp \<and> showsNat ip (nat (t div 10)) \<and>
           showsNat fp (nat (t mod 10)) \<and> length fp = 1 \<and> 0 \<le> t \<and>
           2 * \<bar>den * t - 10 * num\<bar> \<le> den"
proof -
  define t where "t = roundHalfEven (10 * num) den"
  have t0: "0 \<le> t" unfolding t_def using assms by (intro roundHalfEven_nonneg) auto
  have m: "nat (t mod 10) < 10" by (simp add: nat_less_iff)
  have l: "length (digits (nat (t mod 10))) = 1"
    using m by (subst digits.simps) simp
  show ?thesis
    using digits_showsNat [of "nat (t div 10)"] digits_showsNat [of "nat (t mod 10)"] l t0
      roundHalfEven_near [OF assms(1), of "10 * num"]
    unfolding fmt_1f_def Let_def t_def [symmetric] by blast
qed

section \<open>Facts about the server\<close>

lemma status_serveFile: "serveFile h p = Responded r \<Longrightarrow> status r = 200 \<or> status r = 500"
  by (auto simp add: serveFile_def http_Error_def Let_def split: sum.splits)

lemma status_serveDirectory:
  "serveDirectory h p u = Responded r \<Longrightarrow> status r = 200 \<or> status r = 500"
  by (auto simp add: serveDirectory_def http_Error_def Let_def split: sum.splits)

lemma serveResolved_within:
  assumes "withinServeDir a s"
  shows "serveResolved h a s p \<noteq>
           Responded (http_Error ''Forbidden: Path outside serve directory'' 403)"
proof
  assume eq: "serveResolved h a s p =
                Responded (http_Error ''Forbidden: Path outside serve directory'' 403)"
  have st: "status (http_Error ''Forbidden: Path outside serve directory'' 403) = 403"
    by (simp add: http_Error_def)
  show False
  proof (cases "stat h a")
    case (Inl err)
    with eq assms st show False
      by (auto simp add: serveResolved_def http_Error_def split: if_splits)
  next
    case (Inr info)
    with eq assms have
      "serveDirectory h a p = Responded (http_Error ''Forbidden: Path outside serve directory'' 403)
       \<or> serveFile h a = Responded (http_Error ''Forbidden: Path outside serve directory'' 403)"
      by (auto simp add: serveResolved_def split: if_splits)
    with st status_serveFile status_serveDirectory show False
      by fastforce
  qed
qed

lemma stat_failure_panics:
  "withinServeDir a s \<Longrightarrow> stat h a = Inl err \<Longrightarrow> \<not> not_exist err \<Longrightarrow>
   serveResolved h a s p = Panicked"
  by (simp add: serveResolved_def)

lemma collectFiles_URL:
  "f \<in> set (collectFiles urlPath entries) \<Longrightarrow> URL f = childURL urlPath (Name f) (IsDir f)"
  by (induction entries) (auto split: sum.splits)




lemma getMimeType_table: "getMimeType uni f = mime_of_ext (ToLower uni (Ext f))"
  unfolding getMimeType_def mime_of_ext_def mime_table_def Let_def
  by (simp del: One_nat_def)


lemma abs_shift_bound:
  fixes t m n :: int
  assumes a: "2 * \<bar>1048576 * t - 10 * m\<bar> \<le> 1048576" and b: "\<bar>m - n\<bar> \<le> 512"
  shows "2 * \<bar>1048576 * t - 10 * n\<bar> \<le> 1048576 + 10240"
proof -
  have lin: "2 * B \<le> 1048576 \<Longrightarrow> C \<le> 512 \<Longrightarrow> A \<le> B + 10 * C \<Longrightarrow>
             2 * A \<le> 1048576 + 10240" for A B C :: int
    by linarith
  have "1048576 * t - 10 * n = (1048576 * t - 10 * m) + 10 * (m - n)" by simp
  then have "\<bar>1048576 * t - 10 * n\<bar> \<le> \<bar>1048576 * t - 10 * m\<bar> + \<bar>10 * (m - n)\<bar>"
    by (simp only: abs_triangle_ineq)
  moreover have "\<bar>10 * (m - n)\<bar> = 10 * \<bar>m - n\<bar>"
    by (simp only: abs_mult abs_numeral)
  ultimately have "\<bar>1048576 * t - 10 * n\<bar> \<le> \<bar>1048576 * t - 10 * m\<bar> + 10 * \<bar>m - n\<bar>"
    by (simp only:)
  with a b show ?thesis by (rule lin)
qed

lemma formatBytes_examples:
  "formatBytes 0 = ''0 B''"
  "formatBytes 1023 = ''1023 B''"
  "formatBytes 1024 = ''1.0 KB''"
  "formatBytes 1280 = ''1.2 KB''"
  "formatBytes 1536 = ''1.5 KB''"
  "formatBytes 1048575 = ''1024.0 KB''"
  "formatBytes 1048576 = ''1.0 MB''"
  "formatBytes 5000000 = ''4.8 MB''"
  by code_simp+

lemmas path_defs = Abs_def IsAbs_def filepath_Join_def TrimPrefix_def Clean_def clean_step_def
  Separator_def

lemmas demo_defs = demo_host_def demo_stat_def demo_readDir_def demo_open_def demo_dir_def
  demo_file_def demo_notExist_def demo_root_entries_def demo_docs_entries_def

section \<open>The claims\<close>

subsection \<open>C1: candidates outside the serve root\<close>




subsection \<open>C2: a stat failure that is not a non-existence\<close>

text \<open>
  C2.  A failure of \<^verbatim>\<open>os.Stat\<close> on the candidate path for a reason other than
  non-existence should give 500.  In the handler only the non-existence case is
  examined (it gives 404); after any other failure \<^verbatim>\<open>info\<close> is nil and the call
  \<^verbatim>\<open>info.IsDir()\<close> panics, so no response is written.  The request
  \<^verbatim>\<open>/a.txt/x\<close>, a path below a regular file, is such a case.
\<close>

theorem stat_error_panics:
  "stat demo_host ''/srv/files/a.txt/x'' =
     Inl (OsError False ''stat /srv/files/a.txt/x: not a directory'') \<and>
   ServeHTTP demo_host ''/srv/files'' ''/a.txt/x'' = Panicked"
  by (simp add: ServeHTTP_def serveResolved_def withinServeDir_def path_defs
      demo_host_def demo_stat_def)

subsection \<open>C3: the traversal check\<close>

text \<open>
  C3.  Every request path that contains the sequence \<^verbatim>\<open>..\<close> anywhere, or that
  still begins with a separator after one leading separator is stripped, is answered
  403 Forbidden, whatever the host's file system holds.
\<close>

theorem traversal_forbidden:
  assumes "Contains urlPath ''..'' \<or> HasPrefix (TrimPrefix urlPath ''/'') ''/''"
  shows "ServeHTTP h servePath urlPath =
           Responded (http_Error ''Forbidden: Directory traversal not allowed'' 403)"
  using assms Contains_TrimPrefix_dotdot [of urlPath]
  by (auto simp add: ServeHTTP_def Let_def)

theorem traversal_forbidden_witness:
  "Contains ''/docs/../../etc/passwd'' ''..'' \<and>
   ServeHTTP demo_host ''/srv/files'' ''/docs/../../etc/passwd'' =
     Responded (http_Error ''Forbidden: Directory traversal not allowed'' 403) \<and>
   HasPrefix (TrimPrefix ''//etc/passwd'' ''/'') ''/'' \<and>
   ServeHTTP demo_host ''/srv/files'' ''//etc/passwd'' =
     Responded (http_Error ''Forbidden: Directory traversal not allowed'' 403)"
proof -
  have 1: "Contains ''/docs/../../etc/passwd'' ''..''"
    by simp
  have 2: "HasPrefix (TrimPrefix ''//etc/passwd'' ''/'') ''/''"
    by (simp add: TrimPrefix_def)
  from traversal_forbidden [of "''/docs/../../etc/passwd''" demo_host "''/srv/files''"]
    traversal_forbidden [of "''//etc/passwd''" demo_host "''/srv/files''"] 1 2
  show ?thesis by blast
qed

subsection \<open>C4: the parent-directory row\<close>

text \<open>
  C4.  The listing of a non-root path should carry one parent-directory row that links
  to the parent of the listed directory.  The template writes the link without a
  leading \<^verbatim>\<open>/\<close>, and it counts the empty segment after a trailing \<^verbatim>\<open>/\<close>: the
  listing of \<^verbatim>\<open>/docs/\<close> links to \<^verbatim>\<open>docs/\<close> instead of \<^verbatim>\<open>/\<close>, the listing of
  \<^verbatim>\<open>/docs/img\<close> links to the relative \<^verbatim>\<open>docs/\<close> instead of \<^verbatim>\<open>/docs/\<close>, and
  the listing of \<^verbatim>\<open>/docs/img/\<close> links to \<^verbatim>\<open>docs/img/\<close>, the listed directory.
\<close>

theorem parent_link_not_ancestor:
  "parentLink (ServeHTTP demo_host ''/srv/files'' ''/docs/'') = Some ''docs/'' \<and>
   parentLink (ServeHTTP demo_host ''/srv/files'' ''/docs/img'') = Some ''docs/'' \<and>
   parentLink (ServeHTTP demo_host ''/srv/files'' ''/docs/img/'') = Some ''docs/img/''"
  by (simp add: ServeHTTP_def serveResolved_def withinServeDir_def path_defs
      demo_host_def demo_stat_def demo_readDir_def demo_dir_def serveDirectory_def Let_def
      generateDirectoryHTML_def parentHref_def dirname_def parentLink_def)

subsection \<open>C5: the MIME type\<close>



subsection \<open>C6: the order and the extent of a listing\<close>





subsection \<open>C7: human-readable sizes\<close>

text \<open>
  C7.  For a byte count \<open>n\<close> of a 64-bit integer: from 0 to 1023 the size string is the
  decimal numeral of \<open>n\<close> followed by \<^verbatim>\<open> B\<close>; from 1024 to 1048575 it is a numeral
  with one decimal place followed by \<^verbatim>\<open> KB\<close>, the shown number of tenths \<open>t\<close> being
  a nearest one to \<open>n / 1024\<close>; from 1048576 on it is a numeral with one decimal place
  followed by \<^verbatim>\<open> MB\<close>, the shown number of tenths being a nearest one to
  \<open>n / 1048576\<close> below \<open>2^53\<close> bytes and within the rounding of the conversion to
  floating point (at most 512 bytes) above.  A directory row shows the placeholder
  \<^verbatim>\<open>-\<close> and a file row the size string.
\<close>

theorem formatBytes_ranges:
  "(0 \<le> n \<and> n < 1024 \<longrightarrow>
      (\<exists>ds. formatBytes n = ds @ '' B'' \<and> showsNat ds (nat n))) \<and>
   (1024 \<le> n \<and> n < 1048576 \<longrightarrow>
      (\<exists>ip fp t. formatBytes n = ip @ ''.'' @ fp @ '' KB'' \<and>
         showsNat ip (nat (t div 10)) \<and> showsNat fp (nat (t mod 10)) \<and> length fp = 1 \<and>
         0 \<le> t \<and> 2 * \<bar>1024 * t - 10 * n\<bar> \<le> 1024)) \<and>
   (1048576 \<le> n \<and> n < 2 ^ 63 \<longrightarrow>
      (\<exists>ip fp t. formatBytes n = ip @ ''.'' @ fp @ '' MB'' \<and>
         showsNat ip (nat (t div 10)) \<and> showsNat fp (nat (t mod 10)) \<and> length fp = 1 \<and>
         0 \<le> t \<and> 2 * \<bar>1048576 * t - 10 * n\<bar> \<le> 1048576 + 10240 \<and>
         (n < 2 ^ 53 \<longrightarrow> 2 * \<bar>1048576 * t - 10 * n\<bar> \<le> 1048576))) \<and>
   row_size (renderRow f) = (if IsDir f then ''-'' else formatBytes (Size f))"
proof (intro conjI impI)
  assume "0 \<le> n \<and> n < 1024"
  then show "\<exists>ds. formatBytes n = ds @ '' B'' \<and> showsNat ds (nat n)"
    using digits_showsNat [of "nat n"] by (auto simp add: formatBytes_def fmt_d_def)
next
  assume a: "1024 \<le> n \<and> n < 1048576"
  then have f: "float64 n = n" by (intro float64_exact) simp
  from a have fb: "formatBytes n = fmt_1f n 1024 @ '' KB''"
    by (simp add: formatBytes_def f)
  obtain ip fp t where
    "fmt_1f n 1024 = ip @ ''.'' @ fp" "showsNat ip (nat (t div 10))"
    "showsNat fp (nat (t mod 10))" "length fp = 1" "0 \<le> t" "2 * \<bar>1024 * t - 10 * n\<bar> \<le> 1024"
    using fmt_1f_shows [of 1024 n] a by auto
  with fb show "\<exists>ip fp t. formatBytes n = ip @ ''.'' @ fp @ '' KB'' \<and>
         showsNat ip (nat (t div 10)) \<and> showsNat fp (nat (t mod 10)) \<and> length fp = 1 \<and>
         0 \<le> t \<and> 2 * \<bar>1024 * t - 10 * n\<bar> \<le> 1024"
    by auto
next
  assume a: "1048576 \<le> n \<and> n < 2 ^ 63"
  define m where "m = float64 n"
  have ex: "n < 2 ^ 53 \<longrightarrow> m = n"
    using a by (auto simp add: m_def intro: float64_exact)
  have near: "\<bar>m - n\<bar> \<le> 512"
  proof (cases "n < 2 ^ 53")
    case True
    with ex show ?thesis by simp
  next
    case False
    then show ?thesis using a float64_near [of n] by (simp add: m_def)
  qed
  have m0: "0 \<le> m" using near a by linarith
  from a have fb: "formatBytes n = fmt_1f m 1048576 @ '' MB''"
    by (simp add: formatBytes_def m_def)
  obtain ip fp t where t:
    "fmt_1f m 1048576 = ip @ ''.'' @ fp" "showsNat ip (nat (t div 10))"
    "showsNat fp (nat (t mod 10))" "length fp = 1" "0 \<le> t"
    "2 * \<bar>1048576 * t - 10 * m\<bar> \<le> 1048576"
    using fmt_1f_shows [of 1048576 m] m0 by auto
  have b1: "2 * \<bar>1048576 * t - 10 * n\<bar> \<le> 1048576 + 10240"
    using t(6) near by (rule abs_shift_bound)
  have b2: "n < 2 ^ 53 \<longrightarrow> 2 * \<bar>1048576 * t - 10 * n\<bar> \<le> 1048576"
    using t(6) ex by auto
  from fb t b1 b2 show "\<exists>ip fp t. formatBytes n = ip @ ''.'' @ fp @ '' MB'' \<and>
         showsNat ip (nat (t div 10)) \<and> showsNat fp (nat (t mod 10)) \<and> length fp = 1 \<and>
         0 \<le> t \<and> 2 * \<bar>1048576 * t - 10 * n\<bar> \<le> 1048576 + 10240 \<and>
         (n < 2 ^ 53 \<longrightarrow> 2 * \<bar>1048576 * t - 10 * n\<bar> \<le> 1048576)"
    by auto
next
  show "row_size (renderRow f) = (if IsDir f then ''-'' else formatBytes (Size f))"
    by (simp add: renderRow_def)
qed

theorem formatBytes_ranges_witness:
  "(1024 \<le> (1280 :: int) \<and> (1280 :: int) < 1048576) \<and>
   (\<exists>ip fp t. formatBytes 1280 = ip @ ''.'' @ fp @ '' KB'' \<and>
      showsNat ip (nat (t div 10)) \<and> showsNat fp (nat (t mod 10)) \<and> length fp = 1 \<and>
      0 \<le> t \<and> 2 * \<bar>1024 * t - 10 * 1280\<bar> \<le> 1024) \<and>
   formatBytes 1280 = ''1.2 KB'' \<and>
   row_size (renderRow \<lparr>Name = ''docs'', IsDir = True, Size = 4096, ModTime = 0,
                         URL = ''/docs/''\<rparr>) = ''-''"
proof -
  note r = formatBytes_ranges
    [of 1280 "\<lparr>Name = ''docs'', IsDir = True, Size = 4096, ModTime = 0, URL = ''/docs/''\<rparr>"]
  have h: "1024 \<le> (1280 :: int) \<and> (1280 :: int) < 1048576"
    by simp
  from r h have k: "\<exists>ip fp t. formatBytes 1280 = ip @ ''.'' @ fp @ '' KB'' \<and>
      showsNat ip (nat (t div 10)) \<and> showsNat fp (nat (t mod 10)) \<and> length fp = 1 \<and>
      0 \<le> t \<and> 2 * \<bar>1024 * t - 10 * 1280\<bar> \<le> 1024"
    by blast
  from r have d: "row_size (renderRow \<lparr>Name = ''docs'', IsDir = True, Size = 4096,
                    ModTime = 0, URL = ''/docs/''\<rparr>) = ''-''"
    by simp
  from h k d formatBytes_examples(4) show ?thesis by blast
qed

subsection \<open>C8: the URL of a child\<close>

text \<open>
  C8.  Every row of a directory listing links to a URL that starts at the root: a
  \<^verbatim>\<open>/\<close>, then the listing's URL path and a \<^verbatim>\<open>/\<close> when that path is not
  empty, then the child's name, and a trailing \<^verbatim>\<open>/\<close> exactly when the child is a
  directory.
\<close>

theorem child_url:
  assumes "row \<in> set (listedRows (serveDirectory h dirPath urlPath))"
  shows "row_href row =
           ''/'' @ (if urlPath = [] then row_name row else urlPath @ ''/'' @ row_name row)
               @ (if row_isDir row then ''/'' else [])"
proof (cases "readDir h dirPath")
  case (Inl err)
  with assms show ?thesis
    by (simp add: serveDirectory_def listedRows_def http_Error_def)
next
  case (Inr entries)
  with assms obtain f where f: "f \<in> set (collectFiles urlPath entries)" and r: "row = renderRow f"
    by (auto simp add: serveDirectory_def listedRows_def generateDirectoryHTML_def Let_def)
  from collectFiles_URL [OF f] show ?thesis
    by (simp add: r renderRow_def childURL_def Let_def)
qed

theorem child_url_witness:
  "map row_name (listedRows (serveDirectory demo_host ''/srv/files/docs'' ''docs'')) =
     [''img'', ''readme.md''] \<and>
   map row_href (listedRows (serveDirectory demo_host ''/srv/files/docs'' ''docs'')) =
     [''/docs/img/'', ''/docs/readme.md''] \<and>
   hd (listedRows (serveDirectory demo_host ''/srv/files/docs'' ''docs''))
     \<in> set (listedRows (serveDirectory demo_host ''/srv/files/docs'' ''docs'')) \<and>
   row_href (hd (listedRows (serveDirectory demo_host ''/srv/files/docs'' ''docs''))) =
     ''/'' @ ''docs'' @ ''/'' @
       row_name (hd (listedRows (serveDirectory demo_host ''/srv/files/docs'' ''docs''))) @ ''/''"
proof -
  let ?rows = "listedRows (serveDirectory demo_host ''/srv/files/docs'' ''docs'')"
  have n: "map row_name ?rows = [''img'', ''readme.md'']"
    by (simp add: demo_defs serveDirectory_def Let_def generateDirectoryHTML_def
        listedRows_def sort_Slice_def fileLess_def renderRow_def)
  have u: "map row_href ?rows = [''/docs/img/'', ''/docs/readme.md'']"
    by (simp add: demo_defs serveDirectory_def Let_def generateDirectoryHTML_def
        listedRows_def sort_Slice_def fileLess_def renderRow_def childURL_def)
  have d: "row_isDir (hd ?rows)"
    by (simp add: demo_defs serveDirectory_def Let_def generateDirectoryHTML_def
        listedRows_def sort_Slice_def fileLess_def renderRow_def)
  from n have m: "hd ?rows \<in> set ?rows"
    by (cases ?rows) auto
  from child_url [OF m] d have
    "row_href (hd ?rows) = ''/'' @ ''docs'' @ ''/'' @ row_name (hd ?rows) @ ''/''"
    by simp
  with n u m show ?thesis by blast
qed

subsection \<open>C10: the containment test cannot fail\<close>

text \<open>
  C10.  With an absolute serve path, as \<^verbatim>\<open>main\<close> always sets it, every request
  path that passes the traversal check has a candidate path that passes the
  containment test of line 97: both absolute paths are computed without error and the
  serve root is a prefix of the candidate.  Hence no request is ever answered by the
  branch \<^verbatim>\<open>Forbidden: Path outside serve directory\<close>.
\<close>

theorem containment_check_always_passes:
  assumes "IsAbs servePath"
  shows "(\<not> Contains (TrimPrefix urlPath ''/'') ''..'' \<longrightarrow>
            (\<exists>absPath serveAbsPath.
               Abs (getwd h) (filepath_Join [servePath, TrimPrefix urlPath ''/'']) = Inr absPath \<and>
               Abs (getwd h) servePath = Inr serveAbsPath \<and>
               withinServeDir absPath serveAbsPath))
         \<and> ServeHTTP h servePath urlPath \<noteq>
             Responded (http_Error ''Forbidden: Path outside serve directory'' 403)"
proof (intro conjI impI)
  assume nd: "\<not> Contains (TrimPrefix urlPath ''/'') ''..''"
  from resolve_shape [OF assms nd, of "getwd h"] shape_within
  show "\<exists>absPath serveAbsPath.
          Abs (getwd h) (filepath_Join [servePath, TrimPrefix urlPath ''/'']) = Inr absPath \<and>
          Abs (getwd h) servePath = Inr serveAbsPath \<and>
          withinServeDir absPath serveAbsPath"
    by metis
next
  show "ServeHTTP h servePath urlPath \<noteq>
          Responded (http_Error ''Forbidden: Path outside serve directory'' 403)"
  proof (cases "Contains (TrimPrefix urlPath ''/'') ''..'' \<or>
                HasPrefix (TrimPrefix urlPath ''/'') ''/''")
    case True
    then show ?thesis by (auto simp add: ServeHTTP_def Let_def http_Error_def)
  next
    case False
    then have nd: "\<not> Contains (TrimPrefix urlPath ''/'') ''..''" by simp
    obtain st xs where
      a1: "Abs (getwd h) servePath = Inr (Separator # strings_Join st [Separator])" and
      a2: "Abs (getwd h) (filepath_Join [servePath, TrimPrefix urlPath ''/'']) =
             Inr (Separator # strings_Join (st @ xs) [Separator])"
      using resolve_shape [OF assms nd, of "getwd h"] by blast
    have "ServeHTTP h servePath urlPath =
            serveResolved h (Separator # strings_Join (st @ xs) [Separator])
              (Separator # strings_Join st [Separator]) (TrimPrefix urlPath ''/'')"
      using False a1 a2 by (simp add: ServeHTTP_def Let_def)
    then show ?thesis
      using serveResolved_within [OF shape_within] by simp
  qed
qed

theorem containment_check_always_passes_witness:
  "IsAbs ''/srv/files'' \<and>
   \<not> Contains (TrimPrefix ''/docs/./img//'' ''/'') ''..'' \<and>
   Abs (getwd demo_host) (filepath_Join [''/srv/files'', TrimPrefix ''/docs/./img//'' ''/''])
     = Inr ''/srv/files/docs/img'' \<and>
   (\<exists>absPath serveAbsPath.
      Abs (getwd demo_host) (filepath_Join [''/srv/files'', TrimPrefix ''/docs/./img//'' ''/''])
        = Inr absPath \<and>
      Abs (getwd demo_host) ''/srv/files'' = Inr serveAbsPath \<and>
      withinServeDir absPath serveAbsPath) \<and>
   ServeHTTP demo_host ''/srv/files'' ''/docs/./img//'' \<noteq>
     Responded (http_Error ''Forbidden: Path outside serve directory'' 403)"
proof -
  have 1: "IsAbs ''/srv/files''"
    by (simp add: IsAbs_def)
  have 2: "\<not> Contains (TrimPrefix ''/docs/./img//'' ''/'') ''..''"
    by (simp add: TrimPrefix_def)
  have 3: "Abs (getwd demo_host)
             (filepath_Join [''/srv/files'', TrimPrefix ''/docs/./img//'' ''/''])
           = Inr ''/srv/files/docs/img''"
    by (simp add: path_defs)
  from containment_check_always_passes [OF 1, of "''/docs/./img//''" demo_host] 1 2 3
  show ?thesis by blast
qed


section \<open>Further properties of the handler\<close>

text \<open>
  The parent-directory row: the listing of the root (empty URL path) has none; the
  listing of any other path has one, and its link is \<^verbatim>\<open>/\<close> when the path has no
  \<^verbatim>\<open>/\<close> in it and the path without its last \<^verbatim>\<open>/\<close>-separated segment,
  followed by \<^verbatim>\<open>/\<close>, otherwise.
\<close>

theorem parent_row_presence:
  "(urlPath = [] \<longrightarrow> parentLink (serveDirectory h dirPath urlPath) = None) \<and>
   (urlPath \<noteq> [] \<and> readDir h dirPath = Inr entries \<longrightarrow>
      parentLink (serveDirectory h dirPath urlPath) =
        Some (if CHR ''/'' \<notin> set urlPath then ''/'' else dirname urlPath @ ''/''))"
  by (auto simp add: serveDirectory_def parentLink_def generateDirectoryHTML_def Let_def
      http_Error_def parentHref_def Split_single split: sum.splits)

theorem parent_row_presence_witness:
  "parentLink (serveDirectory demo_host ''/srv/files'' []) = None \<and>
   readDir demo_host ''/srv/files/docs'' = Inr demo_docs_entries \<and>
   parentLink (serveDirectory demo_host ''/srv/files/docs'' ''docs'') = Some ''/''"
proof -
  have 1: "readDir demo_host ''/srv/files/docs'' = Inr demo_docs_entries"
    by (simp add: demo_host_def demo_readDir_def)
  from parent_row_presence [of "[]" demo_host "''/srv/files''"]
  have a: "parentLink (serveDirectory demo_host ''/srv/files'' []) = None"
    by blast
  from parent_row_presence [of "''docs''" demo_host "''/srv/files/docs''" demo_docs_entries] 1
  have b: "parentLink (serveDirectory demo_host ''/srv/files/docs'' ''docs'') = Some ''/''"
    by simp
  from a 1 b show ?thesis by blast
qed

text \<open>
  A request that passes the traversal check and whose candidate path does not exist is
  answered 404 Not Found (absolute serve path).
\<close>

theorem missing_path_not_found:
  assumes ab: "IsAbs servePath"
    and nd: "\<not> Contains (TrimPrefix urlPath ''/'') ''..''"
    and ns: "\<not> HasPrefix (TrimPrefix urlPath ''/'') ''/''"
    and c: "Abs (getwd h) (filepath_Join [servePath, TrimPrefix urlPath ''/'']) = Inr absPath"
    and st: "stat h absPath = Inl err"
    and ne: "not_exist err"
  shows "ServeHTTP h servePath urlPath = Responded (http_Error ''Not Found'' 404)"
proof -
  obtain ks xs where
    a1: "Abs (getwd h) servePath = Inr (Separator # strings_Join ks [Separator])" and
    a2: "Abs (getwd h) (filepath_Join [servePath, TrimPrefix urlPath ''/'']) =
           Inr (Separator # strings_Join (ks @ xs) [Separator])"
    using resolve_shape [OF ab nd, of "getwd h"] by blast
  from a2 c have e: "absPath = Separator # strings_Join (ks @ xs) [Separator]" by simp
  have "withinServeDir absPath (Separator # strings_Join ks [Separator])"
    unfolding e by (rule shape_within)
  with nd ns c a1 st ne show ?thesis
    by (simp add: ServeHTTP_def serveResolved_def Let_def)
qed

theorem missing_path_not_found_witness:
  "IsAbs ''/srv/files'' \<and>
   \<not> Contains (TrimPrefix ''/docs/nope.txt'' ''/'') ''..'' \<and>
   \<not> HasPrefix (TrimPrefix ''/docs/nope.txt'' ''/'') ''/'' \<and>
   Abs (getwd demo_host) (filepath_Join [''/srv/files'', TrimPrefix ''/docs/nope.txt'' ''/''])
     = Inr ''/srv/files/docs/nope.txt'' \<and>
   stat demo_host ''/srv/files/docs/nope.txt'' =
     Inl (demo_notExist ''stat'' ''/srv/files/docs/nope.txt'') \<and>
   not_exist (demo_notExist ''stat'' ''/srv/files/docs/nope.txt'') \<and>
   ServeHTTP demo_host ''/srv/files'' ''/docs/nope.txt'' =
     Responded (http_Error ''Not Found'' 404)"
proof -
  have 1: "IsAbs ''/srv/files''"
    by (simp add: IsAbs_def)
  have 2: "\<not> Contains (TrimPrefix ''/docs/nope.txt'' ''/'') ''..''"
    by (simp add: TrimPrefix_def)
  have 3: "\<not> HasPrefix (TrimPrefix ''/docs/nope.txt'' ''/'') ''/''"
    by (simp add: TrimPrefix_def)
  have 4: "Abs (getwd demo_host)
             (filepath_Join [''/srv/files'', TrimPrefix ''/docs/nope.txt'' ''/''])
           = Inr ''/srv/files/docs/nope.txt''"
    by (simp add: path_defs)
  have 5: "stat demo_host ''/srv/files/docs/nope.txt'' =
             Inl (demo_notExist ''stat'' ''/srv/files/docs/nope.txt'')"
    by (simp add: demo_host_def demo_stat_def)
  have 6: "not_exist (demo_notExist ''stat'' ''/srv/files/docs/nope.txt'')"
    by (simp add: demo_notExist_def)
  from missing_path_not_found [OF 1 2 3 4 5 6] 1 2 3 4 5 6 show ?thesis
    by blast
qed

text \<open>
  A file that opens is answered 200 with the MIME type of its base name's extension,
  its size in decimal as the content length, an attachment disposition naming the base
  name, and the file's bytes as the body.
\<close>

theorem file_response:
  assumes "openFile h filePath = Inr file" and "f_stat file = Inr info"
  shows "serveFile h filePath =
           Responded
             \<lparr>status = 200,
              headers =
                [(''Content-Type'', mime_of_ext (ToLower (unicodeLower h) (Ext (Base filePath)))),
                 (''Content-Length'', fmt_d (st_size info)),
                 (''Content-Disposition'',
                    ''attachment; filename='' @ [CHR 0x22] @ Base filePath @ [CHR 0x22])],
              body = Bytes (f_data file)\<rparr>"
  using assms by (simp add: serveFile_def Let_def getMimeType_table)

theorem file_response_witness:
  "openFile demo_host ''/srv/files/Zed.md'' =
     Inr \<lparr>f_stat = Inr (demo_file 5), f_data = ''hello''\<rparr> \<and>
   serveFile demo_host ''/srv/files/Zed.md'' =
     Responded
       \<lparr>status = 200,
        headers =
          [(''Content-Type'', ''text/markdown''),
           (''Content-Length'', ''5''),
           (''Content-Disposition'', ''attachment; filename='' @ [CHR 0x22] @ ''Zed.md'' @ [CHR 0x22])],
        body = Bytes ''hello''\<rparr>"
proof -
  have 1: "openFile demo_host ''/srv/files/Zed.md'' =
             Inr \<lparr>f_stat = Inr (demo_file 5), f_data = ''hello''\<rparr>"
    by (simp add: demo_host_def demo_open_def)
  have 2: "f_stat \<lparr>f_stat = Inr (demo_file 5), f_data = ''hello''\<rparr> = Inr (demo_file 5)"
    by simp
  have 3: "mime_of_ext (ToLower (unicodeLower demo_host) (Ext ''Zed.md'')) = ''text/markdown''"
    by code_simp
  have 4: "fmt_d (st_size (demo_file 5)) = ''5''"
    by code_simp
  have 5: "Base ''/srv/files/Zed.md'' = ''Zed.md''"
    by (simp add: Base_def Separator_def)
  from file_response [OF 1 2] have
    "serveFile demo_host ''/srv/files/Zed.md'' =
       Responded
         \<lparr>status = 200,
          headers =
            [(''Content-Type'',
                mime_of_ext (ToLower (unicodeLower demo_host) (Ext (Base ''/srv/files/Zed.md'')))),
             (''Content-Length'', fmt_d (st_size (demo_file 5))),
             (''Content-Disposition'',
                ''attachment; filename='' @ [CHR 0x22] @ Base ''/srv/files/Zed.md'' @ [CHR 0x22])],
          body = Bytes ''hello''\<rparr>"
    by simp
  then have "serveFile demo_host ''/srv/files/Zed.md'' =
     Responded
       \<lparr>status = 200,
        headers =
          [(''Content-Type'', ''text/markdown''),
           (''Content-Length'', ''5''),
           (''Content-Disposition'', ''attachment; filename='' @ [CHR 0x22] @ ''Zed.md'' @ [CHR 0x22])],
        body = Bytes ''hello''\<rparr>"
    by (simp only: 5 3 4)
  with 1 show ?thesis by blast
qed


text \<open>
  The working directory of the process is the one input of the handler that is not
  the request path, the serve path or the file system.  With an absolute serve path it
  has no influence: two hosts whose file systems answer alike give the same outcome.
\<close>

lemma Abs_of_absolute: "IsAbs p \<Longrightarrow> Abs wd p = Inr (Clean p)"
  by (simp add: Abs_def)

lemma IsAbs_Join:
  assumes "IsAbs servePath"
  shows "IsAbs (filepath_Join [servePath, path])"
proof -
  obtain q where q: "servePath = Separator # q"
    using IsAbs_Cons [OF assms] by blast
  have "filepath_Join [servePath, path] = Clean (Separator # (q @ Separator # path))"
    by (simp add: filepath_Join_def q)
  then show ?thesis by (simp only: IsAbs_Clean_rooted)
qed

theorem response_determined_by_filesystem:
  assumes ab: "IsAbs servePath"
    and s: "stat h1 = stat h2" and o: "openFile h1 = openFile h2"
    and d: "readDir h1 = readDir h2" and u: "unicodeLower h1 = unicodeLower h2"
  shows "ServeHTTP h1 servePath urlPath = ServeHTTP h2 servePath urlPath"
proof -
  have sd: "serveDirectory h1 a p = serveDirectory h2 a p" for a p
    unfolding serveDirectory_def d by (rule refl)
  have sf: "serveFile h1 a = serveFile h2 a" for a
    unfolding serveFile_def o u by (rule refl)
  have r: "serveResolved h1 a b p = serveResolved h2 a b p" for a b p
    unfolding serveResolved_def s sd sf by (rule refl)
  have 1: "Abs (getwd h1) servePath = Abs (getwd h2) servePath"
    using ab by (simp add: Abs_of_absolute)
  have 2: "Abs (getwd h1) (filepath_Join [servePath, p]) =
           Abs (getwd h2) (filepath_Join [servePath, p])" for p
    using IsAbs_Join [OF ab, of p] by (simp add: Abs_of_absolute)
  show ?thesis
    unfolding ServeHTTP_def Let_def r 1 2 by (rule refl)
qed

theorem response_determined_by_filesystem_witness:
  "IsAbs ''/srv/files'' \<and>
   ServeHTTP (demo_host\<lparr>getwd := Inl ''getwd: no such file or directory''\<rparr>)
     ''/srv/files'' ''/docs/'' =
   ServeHTTP demo_host ''/srv/files'' ''/docs/''"
proof -
  have 1: "IsAbs ''/srv/files''"
    by (simp add: IsAbs_def)
  from response_determined_by_filesystem
    [OF 1, of "demo_host\<lparr>getwd := Inl ''getwd: no such file or directory''\<rparr>" demo_host
      "''/docs/''"] 1
  show ?thesis by simp
qed

end
